theory Spec2Isabelle
  imports Main
begin

section \<open>The in-memory transactional key-value store\<close>

text \<open>
  The repository holds two copies of the class \<open>InMemoryDB\<close>: \<open>src/InMemoryDB.py\<close> and
  \<open>src/in_memory_db.py\<close>. They agree line by line except in \<open>commit\<close>: the first assigns the
  transaction dictionary itself to \<open>main_state\<close>, the second assigns a copy of it.

  The two fields of the object hold references to Python dictionaries, and \<open>put\<close> mutates
  the dictionary that \<open>transaction_state\<close> refers to in place. Whether the two fields can
  refer to the same dictionary therefore matters, and the model keeps an explicit store of
  dictionary objects: a reference is an index into the store, \<open>dict.copy()\<close> appends a new
  object.

  \<open>put\<close> and \<open>get\<close> format the caller's value into an f-string, for the message of
  \<open>NoTransactionError\<close> and for \<open>print\<close>, before they raise or return. Formatting an \<open>int\<close>
  raises \<open>ValueError\<close> when it has more decimal digits than the interpreter's limit, so
  these f-strings are branches of the model. What \<open>print\<close> does with the finished string
  is output only and is left out, as are the constant messages of the other operations.
\<close>

subsection \<open>Values, errors, state\<close>

text \<open>
  Python values as far as \<open>isinstance(value, int)\<close> tells them apart. \<open>bool\<close> is a subclass
  of \<open>int\<close>, so \<open>True\<close> and \<open>False\<close> pass the check.
\<close>

datatype pyval = PyInt int | PyBool bool | PyNone | PyStr string | PyList "pyval list"

fun isinstance_int :: "pyval \<Rightarrow> bool" where
  "isinstance_int (PyInt i) = True"
| "isinstance_int (PyBool b) = True"
| "isinstance_int PyNone = False"
| "isinstance_int (PyStr s) = False"
| "isinstance_int (PyList vs) = False"

text \<open>
  The three exceptions the class raises: the bare \<open>Exception\<close> of \<open>begin_transaction\<close>
  (the spec's \<open>TransactionAlreadyActive\<close>), \<open>ValueError\<close> (the spec's \<open>InvalidValue\<close>) and
  \<open>NoTransactionError\<close> (the spec's \<open>NoActiveTransaction\<close>).
\<close>

datatype error = AlreadyInProgress | ValueError | NoTransactionError

text \<open>
  \<open>f"{value}"\<close>: converting an \<open>int\<close> to a decimal string raises \<open>ValueError\<close> when it has
  more than \<open>sys.get_int_max_str_digits()\<close> digits, 4300 unless the interpreter is
  configured otherwise; the sign does not count. \<open>True\<close>, \<open>False\<close>, \<open>None\<close> and strings always
  format; a list formats when its elements do.
\<close>

definition int_max_str_digits :: nat where
  "int_max_str_digits = 4300"

fun formats :: "pyval \<Rightarrow> bool" where
  "formats (PyInt i) = (\<bar>i\<bar> < 10 ^ int_max_str_digits)"
| "formats (PyBool b) = True"
| "formats PyNone = True"
| "formats (PyStr s) = True"
| "formats (PyList vs) = list_all formats vs"

type_synonym dict = "string \<rightharpoonup> pyval"

type_synonym ref = nat

text \<open>
  The object and the store it lives in. \<open>transaction_state = None\<close> is the Python \<open>None\<close>:
  no transaction is active.
\<close>

record InMemoryDB =
  heap :: "dict list"
  main_state :: ref
  transaction_state :: "ref option"

text \<open>
  What a call gives back: the exception raised, or the returned value (\<open>PyNone\<close> for the
  methods that return nothing), together with the state the call leaves behind. A raise
  returns the state as it is at the raise.
\<close>

type_synonym outcome = "error + pyval"

text \<open>\<open>__init__\<close>: one empty dictionary, no transaction.\<close>

definition init :: InMemoryDB where
  "init = \<lparr>heap = [Map.empty], main_state = 0, transaction_state = None\<rparr>"

text \<open>\<open>d.copy()\<close>: a new object with the contents of the old one; its reference is returned.\<close>

definition dict_copy :: "dict list \<Rightarrow> ref \<Rightarrow> dict list \<times> ref" where
  "dict_copy h r = (h @ [h ! r], length h)"

text \<open>\<open>d.get(key)\<close>: the value, or \<open>None\<close> when the key is missing.\<close>

definition dict_get :: "dict \<Rightarrow> string \<Rightarrow> pyval" where
  "dict_get d key = (case d key of None \<Rightarrow> PyNone | Some v \<Rightarrow> v)"

subsection \<open>The five operations\<close>

definition begin_transaction :: "InMemoryDB \<Rightarrow> outcome \<times> InMemoryDB" where
  "begin_transaction s =
     (if transaction_state s \<noteq> None then (Inl AlreadyInProgress, s)
      else let (h, r) = dict_copy (heap s) (main_state s)
           in (Inr PyNone, s\<lparr>heap := h, transaction_state := Some r\<rparr>))"

text \<open>
  \<open>put\<close>: the type check with its constant message; then, with no transaction, the
  message of \<open>NoTransactionError\<close> is formatted from the value before the raise; with a
  transaction, the value is stored and then formatted for \<open>print\<close>.
\<close>

definition put :: "InMemoryDB \<Rightarrow> string \<Rightarrow> pyval \<Rightarrow> outcome \<times> InMemoryDB" where
  "put s key val =
     (if \<not> isinstance_int val then (Inl ValueError, s)
      else case transaction_state s of
             None \<Rightarrow> (if formats val then (Inl NoTransactionError, s) else (Inl ValueError, s))
           | Some t \<Rightarrow>
               (let s' = s\<lparr>heap := (heap s)[t := (heap s ! t)(key \<mapsto> val)]\<rparr>
                in if formats val then (Inr PyNone, s') else (Inl ValueError, s')))"

text \<open>
  \<open>get\<close>: a result that is \<open>None\<close> is reported with the key only; any other result is
  formatted for \<open>print\<close> before it is returned.
\<close>

definition get :: "InMemoryDB \<Rightarrow> string \<Rightarrow> outcome \<times> InMemoryDB" where
  "get s key =
     (let result = (case transaction_state s of
                      Some t \<Rightarrow> dict_get (heap s ! t) key
                    | None \<Rightarrow> dict_get (heap s ! main_state s) key)
      in if result = PyNone then (Inr PyNone, s)
         else if formats result then (Inr result, s) else (Inl ValueError, s))"

text \<open>\<open>commit\<close> of \<open>src/InMemoryDB.py\<close>: \<open>self.main_state = self.transaction_state\<close>.\<close>

definition commit :: "InMemoryDB \<Rightarrow> outcome \<times> InMemoryDB" where
  "commit s =
     (case transaction_state s of
        None \<Rightarrow> (Inl NoTransactionError, s)
      | Some t \<Rightarrow> (Inr PyNone, s\<lparr>main_state := t, transaction_state := None\<rparr>))"

text \<open>\<open>commit\<close> of \<open>src/in_memory_db.py\<close>: \<open>self.main_state = self.transaction_state.copy()\<close>.\<close>

definition commit_copy :: "InMemoryDB \<Rightarrow> outcome \<times> InMemoryDB" where
  "commit_copy s =
     (case transaction_state s of
        None \<Rightarrow> (Inl NoTransactionError, s)
      | Some t \<Rightarrow> (let (h, r) = dict_copy (heap s) t
                  in (Inr PyNone, s\<lparr>heap := h, main_state := r, transaction_state := None\<rparr>)))"

definition rollback :: "InMemoryDB \<Rightarrow> outcome \<times> InMemoryDB" where
  "rollback s =
     (case transaction_state s of
        None \<Rightarrow> (Inl NoTransactionError, s)
      | Some t \<Rightarrow> (Inr PyNone, s\<lparr>transaction_state := None\<rparr>))"

subsection \<open>Reading the state\<close>

text \<open>
  The committed mapping is the dictionary \<open>main_state\<close> refers to, the staged mapping the
  one \<open>transaction_state\<close> refers to, when there is one.
\<close>

definition committed :: "InMemoryDB \<Rightarrow> dict" where
  "committed s = heap s ! main_state s"

definition staged :: "InMemoryDB \<Rightarrow> dict option" where
  "staged s = map_option (\<lambda>t. heap s ! t) (transaction_state s)"

text \<open>
  A state Python can be in: both references point into the store, and the two fields do
  not refer to the same dictionary object.
\<close>

definition well_formed :: "InMemoryDB \<Rightarrow> bool" where
  "well_formed s = (main_state s < length (heap s) \<and>
           (case transaction_state s of
              None \<Rightarrow> True
            | Some t \<Rightarrow> t < length (heap s) \<and> t \<noteq> main_state s))"

subsection \<open>Sequences of calls\<close>

text \<open>The two source files, and the \<open>commit\<close> each of them defines.\<close>

datatype source_file = InMemoryDB_py | in_memory_db_py

fun commit_of :: "source_file \<Rightarrow> InMemoryDB \<Rightarrow> outcome \<times> InMemoryDB" where
  "commit_of InMemoryDB_py = commit"
| "commit_of in_memory_db_py = commit_copy"

datatype op = Begin | Put string pyval | Get string | Commit | Rollback

fun step :: "source_file \<Rightarrow> InMemoryDB \<Rightarrow> op \<Rightarrow> outcome \<times> InMemoryDB" where
  "step f s Begin = begin_transaction s"
| "step f s (Put key val) = put s key val"
| "step f s (Get key) = get s key"
| "step f s Commit = commit_of f s"
| "step f s Rollback = rollback s"

text \<open>
  A caller that makes the calls one after the other, catching every exception: the
  outcomes in order, and the final state.
\<close>

fun exec :: "source_file \<Rightarrow> InMemoryDB \<Rightarrow> op list \<Rightarrow> outcome list \<times> InMemoryDB" where
  "exec f s [] = ([], s)"
| "exec f s (x # xs) =
     (let (r, s') = step f s x; (rs, s'') = exec f s' xs in (r # rs, s''))"

text \<open>The calls \<open>put(k, v)\<close> for the pairs of a list, in order.\<close>

definition puts :: "(string \<times> pyval) list \<Rightarrow> op list" where
  "puts kvs = map (\<lambda>(key, val). Put key val) kvs"

section \<open>Basic facts\<close>

subsection \<open>Which integers format\<close>

text \<open>
  Integers below 1000 in absolute value format; \<open>10 ^ 4300\<close>, the least integer with 4301
  digits, does not. The two facts stand in for the defining equation from here on.
\<close>

lemma formats_small: "\<bar>i\<bar> < 1000 \<Longrightarrow> formats (PyInt i)"
proof -
  assume a: "\<bar>i\<bar> < 1000"
  have "(10::int) ^ 3 \<le> 10 ^ int_max_str_digits"
    by (rule power_increasing) (simp_all add: int_max_str_digits_def)
  with a show ?thesis by simp
qed

lemma not_formats_limit: "\<not> formats (PyInt (10 ^ int_max_str_digits))"
  by simp

declare formats.simps(1) [simp del]

subsection \<open>Each operation, by the state it is called in\<close>

lemma well_formed_init: "well_formed init"
  by (simp add: well_formed_def init_def)

lemma begin_idle:
  "transaction_state s = None \<Longrightarrow>
   begin_transaction s =
     (Inr PyNone, s\<lparr>heap := heap s @ [committed s], transaction_state := Some (length (heap s))\<rparr>)"
  by (simp add: begin_transaction_def dict_copy_def committed_def)

lemma begin_open:
  "transaction_state s = Some t \<Longrightarrow> begin_transaction s = (Inl AlreadyInProgress, s)"
  by (simp add: begin_transaction_def)

lemma put_open:
  "transaction_state s = Some t \<Longrightarrow> isinstance_int val \<Longrightarrow>
   put s key val =
     (if formats val then Inr PyNone else Inl ValueError,
      s\<lparr>heap := (heap s)[t := (heap s ! t)(key \<mapsto> val)]\<rparr>)"
  by (simp add: put_def Let_def)

lemma put_idle:
  "transaction_state s = None \<Longrightarrow> isinstance_int val \<Longrightarrow>
   put s key val = (Inl (if formats val then NoTransactionError else ValueError), s)"
  by (simp add: put_def)

lemma put_invalid:
  "\<not> isinstance_int val \<Longrightarrow> put s key val = (Inl ValueError, s)"
  by (simp add: put_def)

lemma get_result:
  "get s key =
     (let result = dict_get (case staged s of Some d \<Rightarrow> d | None \<Rightarrow> committed s) key
      in (if formats result then Inr result else Inl ValueError, s))"
  by (auto simp: get_def committed_def staged_def Let_def split: option.split)

lemma commit_of_idle:
  "transaction_state s = None \<Longrightarrow> commit_of f s = (Inl NoTransactionError, s)"
  by (cases f) (simp_all add: commit_def commit_copy_def)

lemma rollback_idle:
  "transaction_state s = None \<Longrightarrow> rollback s = (Inl NoTransactionError, s)"
  by (simp add: rollback_def)

lemma rollback_open:
  "transaction_state s = Some t \<Longrightarrow> rollback s = (Inr PyNone, s\<lparr>transaction_state := None\<rparr>)"
  by (simp add: rollback_def)

lemma commit_of_open:
  "well_formed s \<Longrightarrow> transaction_state s = Some t \<Longrightarrow>
   fst (commit_of f s) = Inr PyNone \<and>
   well_formed (snd (commit_of f s)) \<and>
   transaction_state (snd (commit_of f s)) = None \<and>
   committed (snd (commit_of f s)) = heap s ! t"
  by (cases f)
     (simp_all add: commit_def commit_copy_def dict_copy_def well_formed_def committed_def
        nth_append)

lemmas op_defs = begin_transaction_def put_def get_def commit_def commit_copy_def rollback_def
  dict_copy_def dict_get_def

text \<open>
  A call that raises leaves the state as it was, with one exception: a \<open>put\<close> inside a
  transaction of a value that does not format, which has stored the value by then.
\<close>

lemma step_failure_state:
  "fst (step f s x) = Inl e \<Longrightarrow>
   snd (step f s x) = s \<or>
   (\<exists>key val. x = Put key val \<and> isinstance_int val \<and> \<not> formats val \<and> transaction_state s \<noteq> None)"
  by (cases x; cases f) (auto simp: op_defs Let_def split: if_splits option.splits)

lemma well_formed_step: "well_formed s \<Longrightarrow> well_formed (snd (step f s x))"
  by (cases x; cases f)
     (auto simp: op_defs Let_def well_formed_def split: if_splits option.splits)

lemma exec_append:
  "exec f s (xs @ ys) =
     (fst (exec f s xs) @ fst (exec f (snd (exec f s xs)) ys),
      snd (exec f (snd (exec f s xs)) ys))"
  by (induction xs arbitrary: s) (simp_all add: case_prod_beta Let_def)

lemma well_formed_exec: "well_formed s \<Longrightarrow> well_formed (snd (exec f s xs))"
  by (induction xs arbitrary: s) (simp_all add: case_prod_beta Let_def well_formed_step)

lemma reachable_well_formed: "well_formed (snd (exec f init xs))"
  using well_formed_init by (rule well_formed_exec)

subsection \<open>A run of puts inside a transaction\<close>

text \<open>
  The \<open>put\<close> calls of a list write over the staged dictionary, for each key, the value of
  its last pair that passed the type check; a value that does not format is stored all
  the same, and its call raises.
\<close>

lemma exec_puts:
  "transaction_state s = Some t \<Longrightarrow> t < length (heap s) \<Longrightarrow>
   exec f s (puts kvs) =
     (map (\<lambda>(key, val). if isinstance_int val \<and> formats val then Inr PyNone else Inl ValueError) kvs,
      s\<lparr>heap := (heap s)[t := heap s ! t ++
             map_of (rev (filter (\<lambda>(key, val). isinstance_int val) kvs))]\<rparr>)"
proof (induction kvs arbitrary: s)
  case Nil
  then show ?case by (simp add: puts_def)
next
  case (Cons kv kvs)
  obtain key val where kv: "kv = (key, val)" by (cases kv)
  let ?out = "\<lambda>(key, val). if isinstance_int val \<and> formats val then Inr PyNone else Inl ValueError"
  let ?int = "\<lambda>(key, val). isinstance_int val"
  show ?case
  proof (cases "isinstance_int val")
    case False
    then have p: "put s key val = (Inl ValueError, s)"
      by (rule put_invalid)
    have "exec f s (puts kvs) =
       (map ?out kvs, s\<lparr>heap := (heap s)[t := heap s ! t ++ map_of (rev (filter ?int kvs))]\<rparr>)"
      using Cons.prems by (rule Cons.IH)
    moreover have "exec f s (puts (kv # kvs)) =
       (Inl ValueError # fst (exec f s (puts kvs)), snd (exec f s (puts kvs)))"
      using p by (simp add: puts_def kv case_prod_beta)
    ultimately show ?thesis using False by (simp add: kv)
  next
    case True
    let ?s = "s\<lparr>heap := (heap s)[t := (heap s ! t)(key \<mapsto> val)]\<rparr>"
    have p: "put s key val = (if formats val then Inr PyNone else Inl ValueError, ?s)"
      using Cons.prems(1) True by (rule put_open)
    have "exec f ?s (puts kvs) =
       (map ?out kvs, ?s\<lparr>heap := (heap ?s)[t := heap ?s ! t ++ map_of (rev (filter ?int kvs))]\<rparr>)"
      using Cons.prems by (intro Cons.IH) simp_all
    moreover have "(heap s ! t)(key \<mapsto> val) ++ map_of (rev (filter ?int kvs)) =
        heap s ! t ++ map_of (rev (filter ?int (kv # kvs)))"
      using True by (intro ext) (simp add: kv map_add_def split: option.split)
    ultimately have "exec f ?s (puts kvs) =
       (map ?out kvs, s\<lparr>heap := (heap s)[t := heap s ! t ++ map_of (rev (filter ?int (kv # kvs)))]\<rparr>)"
      using Cons.prems by simp
    moreover have "exec f s (puts (kv # kvs)) =
       (fst (put s key val) # fst (exec f ?s (puts kvs)), snd (exec f ?s (puts kvs)))"
      using p by (simp add: puts_def kv case_prod_beta)
    ultimately show ?thesis using True p by (simp add: kv)
  qed
qed

lemma exec_begin_puts:
  assumes "transaction_state s = None"
  shows "exec f s (Begin # puts kvs) =
     (Inr PyNone #
        map (\<lambda>(key, val). if isinstance_int val \<and> formats val then Inr PyNone else Inl ValueError) kvs,
      s\<lparr>heap := heap s @ [committed s ++ map_of (rev (filter (\<lambda>(key, val). isinstance_int val) kvs))],
        transaction_state := Some (length (heap s))\<rparr>)"
proof -
  let ?s1 = "s\<lparr>heap := heap s @ [committed s], transaction_state := Some (length (heap s))\<rparr>"
  let ?out = "\<lambda>(key, val). if isinstance_int val \<and> formats val then Inr PyNone else Inl ValueError"
  let ?int = "\<lambda>(key, val). isinstance_int val"
  have b: "begin_transaction s = (Inr PyNone, ?s1)"
    using assms by (rule begin_idle)
  have "exec f ?s1 (puts kvs) =
     (map ?out kvs,
      ?s1\<lparr>heap := (heap ?s1)[length (heap s) := heap ?s1 ! length (heap s) ++
              map_of (rev (filter ?int kvs))]\<rparr>)"
    by (intro exec_puts) simp_all
  then have "exec f ?s1 (puts kvs) =
     (map ?out kvs,
      s\<lparr>heap := heap s @ [committed s ++ map_of (rev (filter ?int kvs))],
        transaction_state := Some (length (heap s))\<rparr>)"
    by simp
  then show ?thesis using b by simp
qed

text \<open>When every value is an \<open>int\<close> that formats, every \<open>put\<close> of the run returns normally.\<close>

lemma puts_all_succeed:
  assumes "list_all (\<lambda>(key, val). isinstance_int val \<and> formats val) kvs"
  shows "map (\<lambda>(key, val). if isinstance_int val \<and> formats val then Inr PyNone else Inl ValueError) kvs =
      replicate (length kvs) (Inr PyNone :: outcome)"
    and "filter (\<lambda>(key, val). isinstance_int val) kvs = kvs"
  using assms by (induction kvs) auto

lemma dict_get_map_add:
  "dict_get (m ++ map_of ps) key = (case map_of ps key of Some v \<Rightarrow> v | None \<Rightarrow> dict_get m key)"
  by (simp add: dict_get_def map_add_def split: option.split)

subsection \<open>Single steps on well-formed states\<close>

lemma step_transitions:
  assumes "well_formed s"
  shows "(transaction_state s = None \<and> transaction_state (snd (step f s x)) \<noteq> None \<longrightarrow> x = Begin) \<and>
     (transaction_state s \<noteq> None \<and> transaction_state (snd (step f s x)) = None \<longrightarrow>
        x = Commit \<or> x = Rollback) \<and>
     (transaction_state s \<noteq> None \<and> transaction_state (snd (step f s x)) \<noteq> None \<longrightarrow>
        transaction_state (snd (step f s x)) = transaction_state s) \<and>
     (x = Begin \<and> transaction_state s = None \<longrightarrow> transaction_state (snd (step f s x)) \<noteq> None) \<and>
     ((x = Commit \<or> x = Rollback) \<and> transaction_state s \<noteq> None \<longrightarrow>
        transaction_state (snd (step f s x)) = None)"
  by (cases x; cases f) (auto simp: op_defs Let_def split: if_splits option.splits)

lemma step_committed:
  assumes "well_formed s" and "committed (snd (step f s x)) \<noteq> committed s"
  shows "x = Commit \<and> transaction_state s \<noteq> None \<and> Some (committed (snd (step f s x))) = staged s"
  using assms
  by (cases x; cases f)
     (auto simp: op_defs Let_def well_formed_def committed_def staged_def nth_append
        split: if_splits option.splits)

lemma step_same_contents:
  assumes "well_formed s" and "well_formed s'"
    and "committed s = committed s'" and "staged s = staged s'"
  shows "fst (step f s x) = fst (step g s' x) \<and>
    committed (snd (step f s x)) = committed (snd (step g s' x)) \<and>
    staged (snd (step f s x)) = staged (snd (step g s' x))"
  using assms
  by (cases x; cases f; cases g)
     (auto simp: op_defs Let_def well_formed_def committed_def staged_def nth_append
        split: if_splits option.splits)

lemma exec_same_contents:
  assumes "well_formed s" and "well_formed s'"
    and "committed s = committed s'" and "staged s = staged s'"
  shows "fst (exec f s xs) = fst (exec g s' xs) \<and>
    committed (snd (exec f s xs)) = committed (snd (exec g s' xs)) \<and>
    staged (snd (exec f s xs)) = staged (snd (exec g s' xs))"
  using assms
proof (induction xs arbitrary: s s')
  case Nil
  then show ?case by simp
next
  case (Cons x xs)
  have st: "fst (step f s x) = fst (step g s' x) \<and>
      committed (snd (step f s x)) = committed (snd (step g s' x)) \<and>
      staged (snd (step f s x)) = staged (snd (step g s' x))"
    using Cons.prems by (rule step_same_contents)
  have "fst (exec f (snd (step f s x)) xs) = fst (exec g (snd (step g s' x)) xs) \<and>
      committed (snd (exec f (snd (step f s x)) xs)) = committed (snd (exec g (snd (step g s' x)) xs)) \<and>
      staged (snd (exec f (snd (step f s x)) xs)) = staged (snd (exec g (snd (step g s' x)) xs))"
    using Cons.prems st by (intro Cons.IH well_formed_step) simp_all
  with st show ?case
    by (simp add: case_prod_beta)
qed

lemmas run_simps = init_def begin_transaction_def put_def get_def commit_def commit_copy_def
  rollback_def dict_copy_def dict_get_def Let_def committed_def staged_def puts_def
  formats_small not_formats_limit

subsection \<open>What the explicit store shows\<close>

text \<open>
  The invariant is not idle: if both fields referred to one dictionary, a \<open>put\<close> would
  write into the committed mapping.
\<close>

lemma aliased_put_writes_committed:
  "committed (snd (put \<lparr>heap = [Map.empty], main_state = 0, transaction_state = Some 0\<rparr>
     ''A'' (PyInt 5))) ''A'' = Some (PyInt 5)"
  by (simp add: put_def committed_def Let_def)

text \<open>
  The two \<open>commit\<close>s do leave different stores behind: after \<open>begin(); commit()\<close> the first
  has \<open>main_state\<close> on the dictionary that was staged, the second on a third dictionary.
\<close>

lemma commit_stores_differ:
  "main_state (snd (exec InMemoryDB_py init [Begin, Commit])) = 1 \<and>
   main_state (snd (exec in_memory_db_py init [Begin, Commit])) = 2"
  by (simp add: run_simps)

subsection \<open>Durability and visibility for values that format\<close>

text \<open>
  For values that are \<open>int\<close>s and format, the transaction behaves as the spec describes:
  \<open>begin\<close>, the puts and \<open>commit\<close> all return normally, and afterwards \<open>get(key)\<close> gives the
  last value put for the key, or what it gave before \<open>begin\<close>; inside the transaction
  \<open>get(key)\<close> returns the last value put for the key.
\<close>

lemma commit_durability_formats:
  assumes "well_formed s" and "transaction_state s = None"
    and "list_all (\<lambda>(key, val). isinstance_int val \<and> formats val) kvs"
  shows "fst (exec f s (Begin # puts kvs @ [Commit])) = replicate (length kvs + 2) (Inr PyNone) \<and>
    (let s' = snd (exec f s (Begin # puts kvs @ [Commit]))
     in transaction_state s' = None \<and>
        committed s' = committed s ++ map_of (rev kvs) \<and>
        fst (get s' key) = (case map_of (rev kvs) key of Some v \<Rightarrow> Inr v | None \<Rightarrow> fst (get s key)))"
proof -
  let ?t = "length (heap s)"
  let ?s2 = "s\<lparr>heap := heap s @ [committed s ++ map_of (rev kvs)], transaction_state := Some ?t\<rparr>"
  have e: "exec f s (Begin # puts kvs) = (replicate (Suc (length kvs)) (Inr PyNone), ?s2)"
    using exec_begin_puts [OF assms(2), of f kvs] puts_all_succeed [OF assms(3)] by simp
  have wf2: "well_formed ?s2"
    using assms(1) by (simp add: well_formed_def)
  have c: "fst (commit_of f ?s2) = Inr PyNone \<and> well_formed (snd (commit_of f ?s2)) \<and>
      transaction_state (snd (commit_of f ?s2)) = None \<and>
      committed (snd (commit_of f ?s2)) = heap ?s2 ! ?t"
    using wf2 by (rule commit_of_open) simp
  have a: "exec f s ((Begin # puts kvs) @ [Commit]) =
      (replicate (Suc (length kvs)) (Inr PyNone) @ [fst (commit_of f ?s2)], snd (commit_of f ?s2))"
    unfolding exec_append e by (simp add: case_prod_beta)
  have r: "fst (exec f s (Begin # puts kvs @ [Commit])) = replicate (length kvs + 2) (Inr PyNone)"
    using a c by (simp add: replicate_append_same)
  have s': "snd (exec f s (Begin # puts kvs @ [Commit])) = snd (commit_of f ?s2)"
    using a by simp
  have cm: "committed (snd (commit_of f ?s2)) = committed s ++ map_of (rev kvs)"
    using c by simp
  have st: "staged (snd (commit_of f ?s2)) = None"
    using c by (simp add: staged_def)
  have fm: "formats v" if "map_of (rev kvs) key = Some v" for v
  proof -
    from that have "(key, v) \<in> set kvs"
      using map_of_SomeD by fastforce
    with assms(3) show ?thesis
      by (auto simp: list_all_iff)
  qed
  have g: "fst (get (snd (commit_of f ?s2)) key) =
      (case map_of (rev kvs) key of Some v \<Rightarrow> Inr v | None \<Rightarrow> fst (get s key))"
  proof -
    have before: "fst (get s key) =
        (if formats (dict_get (committed s) key) then Inr (dict_get (committed s) key)
         else Inl ValueError)"
      using assms(2) by (simp add: get_result staged_def Let_def)
    have after: "fst (get (snd (commit_of f ?s2)) key) =
        (if formats (dict_get (committed s ++ map_of (rev kvs)) key)
         then Inr (dict_get (committed s ++ map_of (rev kvs)) key) else Inl ValueError)"
      by (simp add: get_result st cm Let_def)
    show ?thesis
    proof (cases "map_of (rev kvs) key")
      case None
      then show ?thesis
        unfolding before after by (simp add: dict_get_map_add)
    next
      case (Some v)
      then show ?thesis
        unfolding after using fm [OF Some] by (simp add: dict_get_map_add)
    qed
  qed
  show ?thesis
    unfolding Let_def s' using r c cm g by simp
qed

lemma read_your_own_writes_formats:
  assumes "transaction_state s = None"
    and "list_all (\<lambda>(key, val). isinstance_int val \<and> formats val) kvs"
    and "map_of (rev kvs) key = Some v"
  shows "fst (get (snd (exec f s (Begin # puts kvs))) key) = Inr v"
proof -
  have e: "snd (exec f s (Begin # puts kvs)) =
      s\<lparr>heap := heap s @ [committed s ++ map_of (rev kvs)],
        transaction_state := Some (length (heap s))\<rparr>"
    using exec_begin_puts [OF assms(1), of f kvs] puts_all_succeed [OF assms(2)] by simp
  from assms(3) have "(key, v) \<in> set kvs"
    using map_of_SomeD by fastforce
  with assms(2) have "formats v"
    by (auto simp: list_all_iff)
  then show ?thesis
    unfolding e using assms(3) by (simp add: get_result staged_def dict_get_map_add)
qed

section \<open>The claims\<close>

subsection \<open>C1\<close>

text \<open>
  C1 (commit durability) does not hold of the code for every integer value. On a new
  store, under either source file, \<open>begin(); put("A", 10 ** 4300); commit(); get("A")\<close> gives
  \<open>None\<close>, \<open>ValueError\<close>, \<open>None\<close>, \<open>ValueError\<close>: the \<open>put\<close> stores the value and raises while
  formatting it for \<open>print\<close>, the value is committed, and the \<open>get\<close> outside the transaction
  raises instead of returning it.
\<close>

theorem commit_durability_diverges:
  "fst (exec InMemoryDB_py init
          (Begin # puts [(''A'', PyInt (10 ^ int_max_str_digits))] @ [Commit, Get ''A''])) =
     [Inr PyNone, Inl ValueError, Inr PyNone, Inl ValueError] \<and>
   fst (exec in_memory_db_py init
          (Begin # puts [(''A'', PyInt (10 ^ int_max_str_digits))] @ [Commit, Get ''A''])) =
     [Inr PyNone, Inl ValueError, Inr PyNone, Inl ValueError] \<and>
   committed (snd (exec InMemoryDB_py init
          (Begin # puts [(''A'', PyInt (10 ^ int_max_str_digits))] @ [Commit]))) ''A'' =
     Some (PyInt (10 ^ int_max_str_digits))"
  by (simp add: run_simps)

subsection \<open>C2\<close>

text \<open>
  C2 (rollback isolation). From any committed state with no transaction open, after
  \<open>begin\<close>, any run of \<open>put\<close> calls and \<open>rollback\<close>, \<open>main_state\<close> refers to the same dictionary
  with the same contents for every key, and there is no staged mapping; this holds whether
  or not the puts succeed. When every value is an \<open>int\<close> that formats, all the calls of the
  run return normally.
\<close>

theorem rollback_isolation:
  assumes "well_formed s" and "transaction_state s = None"
  shows "(let s' = snd (exec f s (Begin # puts kvs @ [Rollback]))
     in committed s' = committed s \<and> main_state s' = main_state s \<and>
        transaction_state s' = None \<and> staged s' = None) \<and>
    (list_all (\<lambda>(key, val). isinstance_int val \<and> formats val) kvs \<longrightarrow>
       fst (exec f s (Begin # puts kvs @ [Rollback])) = replicate (length kvs + 2) (Inr PyNone))"
proof -
  let ?t = "length (heap s)"
  let ?out = "\<lambda>(key, val). if isinstance_int val \<and> formats val then Inr PyNone else Inl ValueError"
  let ?s2 = "s\<lparr>heap := heap s @ [committed s ++
      map_of (rev (filter (\<lambda>(key, val). isinstance_int val) kvs))], transaction_state := Some ?t\<rparr>"
  have e: "exec f s (Begin # puts kvs) = (Inr PyNone # map ?out kvs, ?s2)"
    using assms(2) by (rule exec_begin_puts)
  have rb: "rollback ?s2 = (Inr PyNone, ?s2\<lparr>transaction_state := None\<rparr>)"
    by (rule rollback_open) simp
  have a: "exec f s ((Begin # puts kvs) @ [Rollback]) =
      ((Inr PyNone # map ?out kvs) @ [Inr PyNone], ?s2\<lparr>transaction_state := None\<rparr>)"
    unfolding exec_append e using rb by simp
  have m: "main_state s < length (heap s)"
    using assms(1) by (simp add: well_formed_def)
  have state: "let s' = snd (exec f s (Begin # puts kvs @ [Rollback]))
     in committed s' = committed s \<and> main_state s' = main_state s \<and>
        transaction_state s' = None \<and> staged s' = None"
    using a m by (simp add: Let_def committed_def staged_def nth_append)
  have out: "fst (exec f s (Begin # puts kvs @ [Rollback])) = replicate (length kvs + 2) (Inr PyNone)"
    if "list_all (\<lambda>(key, val). isinstance_int val \<and> formats val) kvs"
    using a puts_all_succeed(1) [OF that] by (simp add: replicate_append_same)
  from state out show ?thesis by blast
qed

text \<open>
  An instance: \<open>A\<close> is committed, the transaction adds \<open>B\<close> and overwrites \<open>A\<close>.
\<close>

theorem rollback_isolation_witness:
  "well_formed \<lparr>heap = [[''A'' \<mapsto> PyInt 6]], main_state = 0, transaction_state = None\<rparr> \<and>
   list_all (\<lambda>(key, val). isinstance_int val \<and> formats val) [(''B'', PyInt 10), (''A'', PyInt 7)] \<and>
   fst (exec in_memory_db_py
          \<lparr>heap = [[''A'' \<mapsto> PyInt 6]], main_state = 0, transaction_state = None\<rparr>
          (Begin # puts [(''B'', PyInt 10), (''A'', PyInt 7)] @ [Rollback])) =
     [Inr PyNone, Inr PyNone, Inr PyNone, Inr PyNone] \<and>
   committed (snd (exec in_memory_db_py
          \<lparr>heap = [[''A'' \<mapsto> PyInt 6]], main_state = 0, transaction_state = None\<rparr>
          (Begin # puts [(''B'', PyInt 10), (''A'', PyInt 7)] @ [Rollback]))) =
     [''A'' \<mapsto> PyInt 6] \<and>
   transaction_state (snd (exec in_memory_db_py
          \<lparr>heap = [[''A'' \<mapsto> PyInt 6]], main_state = 0, transaction_state = None\<rparr>
          (Begin # puts [(''B'', PyInt 10), (''A'', PyInt 7)] @ [Rollback]))) = None"
proof -
  let ?s = "\<lparr>heap = [[''A'' \<mapsto> PyInt 6]], main_state = 0, transaction_state = None\<rparr>"
  let ?kvs = "[(''B'', PyInt 10), (''A'', PyInt 7)]"
  have w: "well_formed ?s" by (simp add: well_formed_def)
  have i: "transaction_state ?s = None" by simp
  have l: "list_all (\<lambda>(key, val). isinstance_int val \<and> formats val) ?kvs"
    by (simp add: formats_small)
  have c: "committed ?s = [''A'' \<mapsto> PyInt 6]" by (simp add: committed_def)
  show ?thesis
    using w l c rollback_isolation [OF w i, of in_memory_db_py ?kvs]
    by (simp add: Let_def del: exec.simps)
qed

subsection \<open>C3\<close>

text \<open>
  C3 (read your own writes) does not hold of the code for every integer value. On a new
  store \<open>begin(); put("A", 10 ** 4300); get("A")\<close> gives \<open>None\<close>, \<open>ValueError\<close>, \<open>ValueError\<close>:
  the value is staged, and both the \<open>put\<close> and the \<open>get\<close> raise while formatting it for
  \<open>print\<close>.
\<close>

theorem read_your_own_writes_diverges:
  "fst (exec InMemoryDB_py init [Begin, Put ''A'' (PyInt (10 ^ int_max_str_digits)), Get ''A'']) =
     [Inr PyNone, Inl ValueError, Inl ValueError] \<and>
   staged (snd (exec InMemoryDB_py init [Begin, Put ''A'' (PyInt (10 ^ int_max_str_digits))])) =
     Some [''A'' \<mapsto> PyInt (10 ^ int_max_str_digits)]"
  by (simp add: run_simps)

subsection \<open>C4\<close>

text \<open>
  C4, as amended. With no transaction open, \<open>put(key, val)\<close> always raises and leaves the
  state, and so the committed mapping, as it was. It raises \<open>ValueError\<close> for every value
  that is not an \<open>int\<close>, since the type of the value is checked first, and
  \<open>NoTransactionError\<close> for every \<open>int\<close> that formats. Which exception an \<open>int\<close> that does not
  format gives is left open.
\<close>

theorem put_without_transaction:
  assumes "transaction_state s = None"
  shows "snd (put s key val) = s \<and> committed (snd (put s key val)) = committed s \<and>
    (\<exists>e. fst (put s key val) = Inl e) \<and>
    (\<not> isinstance_int val \<longrightarrow> fst (put s key val) = Inl ValueError) \<and>
    (isinstance_int val \<and> formats val \<longrightarrow> fst (put s key val) = Inl NoTransactionError)"
  using assms by (cases "isinstance_int val") (simp_all add: put_idle put_invalid)

text \<open>
  An instance: \<open>put("A", 5)\<close> and \<open>put("A", None)\<close> on a new store.
\<close>

theorem put_without_transaction_witness:
  "transaction_state init = None \<and>
   isinstance_int (PyInt 5) \<and> formats (PyInt 5) \<and>
   put init ''A'' (PyInt 5) = (Inl NoTransactionError, init) \<and>
   \<not> isinstance_int PyNone \<and>
   put init ''A'' PyNone = (Inl ValueError, init)"
proof -
  have i: "transaction_state init = None" by (simp add: init_def)
  have f: "formats (PyInt 5)" by (simp add: formats_small)
  show ?thesis
    using i f put_without_transaction [OF i, of "''A''" "PyInt 5"]
      put_without_transaction [OF i, of "''A''" PyNone]
    by (simp add: prod_eq_iff)
qed

text \<open>
  C4 as the claim states it, for every value, fails: on a new store, where no transaction
  is open, \<open>put("A", "5")\<close> raises \<open>ValueError\<close> and not \<open>NoTransactionError\<close>.
\<close>

theorem put_without_transaction_counterexample:
  "transaction_state init = None \<and>
   put init ''A'' (PyStr ''5'') = (Inl ValueError, init) \<and>
   fst (put init ''A'' (PyStr ''5'')) \<noteq> Inl NoTransactionError"
  by (simp add: put_def init_def)

subsection \<open>C5\<close>

text \<open>
  C5. While a transaction is open, \<open>begin_transaction\<close> raises and leaves the whole state
  as it was. With none open it succeeds, the staged mapping is a new dictionary object
  holding the contents of the committed one, the committed mapping is unchanged, and every
  \<open>get(key)\<close> gives what it gave before the call.
\<close>

theorem begin_transaction_spec:
  "(transaction_state s \<noteq> None \<longrightarrow> begin_transaction s = (Inl AlreadyInProgress, s)) \<and>
   (well_formed s \<and> transaction_state s = None \<longrightarrow>
      fst (begin_transaction s) = Inr PyNone \<and>
      (let s' = snd (begin_transaction s)
       in staged s' = Some (committed s) \<and> committed s' = committed s \<and>
          transaction_state s' \<noteq> Some (main_state s') \<and> well_formed s' \<and>
          (\<forall>key. fst (get s' key) = fst (get s key))))"
proof (intro conjI impI)
  assume "transaction_state s \<noteq> None"
  then show "begin_transaction s = (Inl AlreadyInProgress, s)"
    by (simp add: begin_transaction_def)
next
  assume a: "well_formed s \<and> transaction_state s = None"
  then show "fst (begin_transaction s) = Inr PyNone"
    by (simp add: begin_idle)
  from a show "let s' = snd (begin_transaction s)
       in staged s' = Some (committed s) \<and> committed s' = committed s \<and>
          transaction_state s' \<noteq> Some (main_state s') \<and> well_formed s' \<and>
          (\<forall>key. fst (get s' key) = fst (get s key))"
    by (simp add: begin_idle Let_def get_result)
       (simp add: staged_def committed_def well_formed_def nth_append)
qed

text \<open>
  Instances: a store with an open transaction, and a store without one.
\<close>

theorem begin_transaction_spec_witness:
  "transaction_state \<lparr>heap = [[''A'' \<mapsto> PyInt 1], [''A'' \<mapsto> PyInt 2]], main_state = 0,
      transaction_state = Some 1\<rparr> \<noteq> None \<and>
   begin_transaction \<lparr>heap = [[''A'' \<mapsto> PyInt 1], [''A'' \<mapsto> PyInt 2]], main_state = 0,
      transaction_state = Some 1\<rparr> =
     (Inl AlreadyInProgress,
      \<lparr>heap = [[''A'' \<mapsto> PyInt 1], [''A'' \<mapsto> PyInt 2]], main_state = 0,
        transaction_state = Some 1\<rparr>) \<and>
   well_formed \<lparr>heap = [[''A'' \<mapsto> PyInt 1]], main_state = 0, transaction_state = None\<rparr> \<and>
   fst (begin_transaction
          \<lparr>heap = [[''A'' \<mapsto> PyInt 1]], main_state = 0, transaction_state = None\<rparr>) = Inr PyNone \<and>
   staged (snd (begin_transaction
          \<lparr>heap = [[''A'' \<mapsto> PyInt 1]], main_state = 0, transaction_state = None\<rparr>)) =
     Some [''A'' \<mapsto> PyInt 1]"
proof -
  let ?s = "\<lparr>heap = [[''A'' \<mapsto> PyInt 1]], main_state = 0, transaction_state = None\<rparr>"
  let ?o = "\<lparr>heap = [[''A'' \<mapsto> PyInt 1], [''A'' \<mapsto> PyInt 2]], main_state = 0,
      transaction_state = Some 1\<rparr>"
  have w: "well_formed ?s" by (simp add: well_formed_def)
  have c: "committed ?s = [''A'' \<mapsto> PyInt 1]" by (simp add: committed_def)
  show ?thesis
    using w c begin_transaction_spec [of ?o] begin_transaction_spec [of ?s]
    by (simp add: Let_def)
qed

subsection \<open>C6\<close>

text \<open>
  C6 (a failed call never changes the state) does not hold of the code. After \<open>begin()\<close> on
  a new store, \<open>put("A", 10 ** 4300)\<close> raises \<open>ValueError\<close>, and the staged mapping, empty
  before the call, holds \<open>A\<close> after it: the value is stored before it is formatted for
  \<open>print\<close>. The first half of the claim holds, see \<open>commit_of_idle\<close> and
  \<open>rollback_idle\<close>, and \<open>step_failure_state\<close> says that this \<open>put\<close> is the only failing call
  that changes the state.
\<close>

theorem failed_put_changes_staged:
  "fst (step InMemoryDB_py (snd (exec InMemoryDB_py init [Begin]))
          (Put ''A'' (PyInt (10 ^ int_max_str_digits)))) = Inl ValueError \<and>
   staged (snd (exec InMemoryDB_py init [Begin])) = Some Map.empty \<and>
   staged (snd (step InMemoryDB_py (snd (exec InMemoryDB_py init [Begin]))
          (Put ''A'' (PyInt (10 ^ int_max_str_digits))))) =
     Some [''A'' \<mapsto> PyInt (10 ^ int_max_str_digits)] \<and>
   snd (step InMemoryDB_py (snd (exec InMemoryDB_py init [Begin]))
          (Put ''A'' (PyInt (10 ^ int_max_str_digits)))) \<noteq> snd (exec InMemoryDB_py init [Begin])"
  by (simp add: run_simps)

subsection \<open>C7\<close>

text \<open>
  C7 (\<open>get\<close> never fails) does not hold of the code. After \<open>begin(); put("A", 10 ** 4300)\<close>
  on a new store, \<open>get("A")\<close> raises \<open>ValueError\<close>, inside the transaction and after
  \<open>commit()\<close>: the result is formatted for \<open>print\<close> before it is returned. That \<open>get\<close> never
  changes the state, and which mapping it reads, is \<open>get_result\<close>.
\<close>

theorem get_fails_on_stored_value:
  "fst (get (snd (exec InMemoryDB_py init
          [Begin, Put ''A'' (PyInt (10 ^ int_max_str_digits))])) ''A'') = Inl ValueError \<and>
   fst (get (snd (exec InMemoryDB_py init
          [Begin, Put ''A'' (PyInt (10 ^ int_max_str_digits)), Commit])) ''A'') = Inl ValueError"
  by (simp add: run_simps)

subsection \<open>C8\<close>

text \<open>
  C8 (state machine). In every state reached from the new store by calls of the five
  operations, under either source file, any further call leaves the two references
  well formed, and:
  only \<open>begin\<close> opens a transaction, and it does so whenever none is open;
  only \<open>commit\<close> and \<open>rollback\<close> close one, and they do so whenever one is open;
  while a transaction stays open its staged dictionary stays the same object, so that no
  second one exists;
  the committed mapping changes only in a \<open>commit\<close> with a transaction open, to the
  contents of the staged mapping.
\<close>

theorem state_machine_invariant:
  "let s = snd (exec f init pre); s' = snd (step f s x)
   in well_formed s' \<and>
      (transaction_state s = None \<and> transaction_state s' \<noteq> None \<longrightarrow> x = Begin) \<and>
      (transaction_state s \<noteq> None \<and> transaction_state s' = None \<longrightarrow> x = Commit \<or> x = Rollback) \<and>
      (transaction_state s \<noteq> None \<and> transaction_state s' \<noteq> None \<longrightarrow>
         transaction_state s' = transaction_state s) \<and>
      (x = Begin \<and> transaction_state s = None \<longrightarrow> transaction_state s' \<noteq> None) \<and>
      ((x = Commit \<or> x = Rollback) \<and> transaction_state s \<noteq> None \<longrightarrow> transaction_state s' = None) \<and>
      (committed s' \<noteq> committed s \<longrightarrow>
         x = Commit \<and> transaction_state s \<noteq> None \<and> Some (committed s') = staged s)"
proof -
  have wf: "well_formed (snd (exec f init pre))"
    by (rule reachable_well_formed)
  have c: "committed (snd (step f (snd (exec f init pre)) x)) \<noteq> committed (snd (exec f init pre)) \<longrightarrow>
      x = Commit \<and> transaction_state (snd (exec f init pre)) \<noteq> None \<and>
      Some (committed (snd (step f (snd (exec f init pre)) x))) = staged (snd (exec f init pre))"
    using wf by (intro impI step_committed)
  show ?thesis
    unfolding Let_def
    using well_formed_step [OF wf, of f x] step_transitions [OF wf, of f x] c
    by simp
qed

text \<open>
  Instances: \<open>begin\<close> on the new store, \<open>put\<close> inside a transaction, and a \<open>commit\<close>
  that changes the committed mapping.
\<close>

theorem state_machine_invariant_witness:
  "transaction_state (snd (exec InMemoryDB_py init [])) = None \<and>
   transaction_state (snd (step InMemoryDB_py (snd (exec InMemoryDB_py init [])) Begin)) \<noteq> None \<and>
   transaction_state (snd (exec InMemoryDB_py init [Begin, Put ''A'' (PyInt 5)])) \<noteq> None \<and>
   transaction_state
     (snd (step InMemoryDB_py (snd (exec InMemoryDB_py init [Begin, Put ''A'' (PyInt 5)])) Commit)) = None \<and>
   committed (snd (step InMemoryDB_py (snd (exec InMemoryDB_py init [Begin, Put ''A'' (PyInt 5)])) Commit))
     \<noteq> committed (snd (exec InMemoryDB_py init [Begin, Put ''A'' (PyInt 5)])) \<and>
   Some (committed
     (snd (step InMemoryDB_py (snd (exec InMemoryDB_py init [Begin, Put ''A'' (PyInt 5)])) Commit))) =
     staged (snd (exec InMemoryDB_py init [Begin, Put ''A'' (PyInt 5)])) \<and>
   transaction_state
     (snd (step InMemoryDB_py (snd (exec InMemoryDB_py init [Begin])) (Put ''A'' (PyInt 5)))) =
     transaction_state (snd (exec InMemoryDB_py init [Begin])) \<and>
   well_formed (snd (step InMemoryDB_py (snd (exec InMemoryDB_py init [Begin])) (Put ''A'' (PyInt 5))))"
proof -
  have e0: "exec InMemoryDB_py init [] = ([], init)"
    by simp
  have e1: "snd (exec InMemoryDB_py init [Begin]) =
      \<lparr>heap = [Map.empty, Map.empty], main_state = 0, transaction_state = Some 1\<rparr>"
    by (simp add: run_simps)
  have e2: "snd (exec InMemoryDB_py init [Begin, Put ''A'' (PyInt 5)]) =
      \<lparr>heap = [Map.empty, [''A'' \<mapsto> PyInt 5]], main_state = 0, transaction_state = Some 1\<rparr>"
    by (simp add: run_simps)
  have c: "committed (snd (step InMemoryDB_py
               \<lparr>heap = [Map.empty, [''A'' \<mapsto> PyInt 5]], main_state = 0, transaction_state = Some 1\<rparr>
               Commit)) \<noteq>
      committed \<lparr>heap = [Map.empty, [''A'' \<mapsto> PyInt 5]], main_state = 0, transaction_state = Some 1\<rparr>"
  proof
    assume "committed (snd (step InMemoryDB_py
               \<lparr>heap = [Map.empty, [''A'' \<mapsto> PyInt 5]], main_state = 0, transaction_state = Some 1\<rparr>
               Commit)) =
      committed \<lparr>heap = [Map.empty, [''A'' \<mapsto> PyInt 5]], main_state = 0, transaction_state = Some 1\<rparr>"
    then have "[''A'' \<mapsto> PyInt 5] ''A'' = (Map.empty :: dict) ''A''"
      by (simp add: run_simps)
    then show False by simp
  qed
  show ?thesis
    unfolding e0 e1 e2
    using c
      state_machine_invariant [of InMemoryDB_py "[]" Begin]
      state_machine_invariant [of InMemoryDB_py "[Begin, Put ''A'' (PyInt 5)]" Commit]
      state_machine_invariant [of InMemoryDB_py "[Begin]" "Put ''A'' (PyInt 5)"]
    unfolding Let_def e0 e1 e2
    by (simp add: init_def)
qed

subsection \<open>C9\<close>

text \<open>
  C9. \<open>put\<close> checks the type of the value before it looks for a transaction: a value that
  is not an \<open>int\<close> raises \<open>ValueError\<close> in every state, with or without a transaction, and
  the state is unchanged.
\<close>

theorem put_type_check_first:
  assumes "\<not> isinstance_int val"
  shows "put s key val = (Inl ValueError, s)"
  using assms by (rule put_invalid)

text \<open>
  An instance: a string value, with no transaction open.
\<close>

theorem put_type_check_first_witness:
  "\<not> isinstance_int (PyStr ''five'') \<and>
   put init ''A'' (PyStr ''five'') = (Inl ValueError, init)"
proof -
  have v: "\<not> isinstance_int (PyStr ''five'')" by simp
  show ?thesis
    using v put_type_check_first [OF v, of init "''A''"] by simp
qed

subsection \<open>C10\<close>

text \<open>
  C10. From every state reached from the new store under either source file, any
  sequence of calls gives the same outcomes, call by call, under the \<open>commit\<close> that
  assigns the staged dictionary and under the \<open>commit\<close> that assigns a copy of it, and
  ends with the same committed and staged contents.
\<close>

theorem commit_variants_equivalent:
  "let s = snd (exec f init pre)
   in fst (exec InMemoryDB_py s xs) = fst (exec in_memory_db_py s xs) \<and>
      committed (snd (exec InMemoryDB_py s xs)) = committed (snd (exec in_memory_db_py s xs)) \<and>
      staged (snd (exec InMemoryDB_py s xs)) = staged (snd (exec in_memory_db_py s xs))"
proof -
  have wf: "well_formed (snd (exec f init pre))"
    by (rule reachable_well_formed)
  show ?thesis
    unfolding Let_def
    using wf wf refl refl by (rule exec_same_contents)
qed

text \<open>
  An instance: a commit, then a transaction that is rolled back, with reads in between.
\<close>

theorem commit_variants_equivalent_witness:
  "fst (exec InMemoryDB_py (snd (exec InMemoryDB_py init [Begin, Put ''A'' (PyInt 5)]))
         [Commit, Get ''A'', Begin, Put ''A'' (PyInt 6), Get ''A'', Rollback, Get ''A'']) =
     [Inr PyNone, Inr (PyInt 5), Inr PyNone, Inr PyNone, Inr (PyInt 6), Inr PyNone, Inr (PyInt 5)] \<and>
   fst (exec in_memory_db_py (snd (exec InMemoryDB_py init [Begin, Put ''A'' (PyInt 5)]))
         [Commit, Get ''A'', Begin, Put ''A'' (PyInt 6), Get ''A'', Rollback, Get ''A'']) =
     [Inr PyNone, Inr (PyInt 5), Inr PyNone, Inr PyNone, Inr (PyInt 6), Inr PyNone, Inr (PyInt 5)]"
proof -
  have e2: "snd (exec InMemoryDB_py init [Begin, Put ''A'' (PyInt 5)]) =
      \<lparr>heap = [Map.empty, [''A'' \<mapsto> PyInt 5]], main_state = 0, transaction_state = Some 1\<rparr>"
    by (simp add: run_simps)
  have a: "fst (exec InMemoryDB_py
         \<lparr>heap = [Map.empty, [''A'' \<mapsto> PyInt 5]], main_state = 0, transaction_state = Some 1\<rparr>
         [Commit, Get ''A'', Begin, Put ''A'' (PyInt 6), Get ''A'', Rollback, Get ''A'']) =
     [Inr PyNone, Inr (PyInt 5), Inr PyNone, Inr PyNone, Inr (PyInt 6), Inr PyNone, Inr (PyInt 5)]"
    by (simp add: run_simps)
  show ?thesis
    using a commit_variants_equivalent [of InMemoryDB_py "[Begin, Put ''A'' (PyInt 5)]"
      "[Commit, Get ''A'', Begin, Put ''A'' (PyInt 6), Get ''A'', Rollback, Get ''A'']"]
    unfolding Let_def e2
    by simp
qed

end
